theory Spec2Isabelle
  imports Complex_Main
begin


section \<open>Word to PDF conversion: the font manager and the orchestrator\<close>

text \<open>
  A shallow embedding of \<^verbatim>\<open>src/app/word-to-pdf/actions.ts\<close>. The external
  collaborators (the file system, the document extractor, the PDF renderer, the Buffer
  codec) are parameters of the model; every call that can throw in the source returns a
  sum here, with the exception on the left.
\<close>

subsection \<open>Strings and numbers of the host language\<close>

text \<open>
  A string of the source is a sequence of UTF-16 code units. \<^verbatim>\<open>Array.from(text)\<close>
  iterates it by code point: a high surrogate followed by a low surrogate is one
  element, every other unit (a lone surrogate too) is an element of its own, and
  \<^verbatim>\<open>codePointAt(0)\<close> of that element is its code point.
\<close>

type_synonym js_string = "nat list"
type_synonym buffer = "nat list"

definition str :: "string \<Rightarrow> js_string" where
  "str s = map of_char s"

definition is_high_surrogate :: "nat \<Rightarrow> bool" where
  "is_high_surrogate u = (0xD800 \<le> u \<and> u \<le> 0xDBFF)"

definition is_low_surrogate :: "nat \<Rightarrow> bool" where
  "is_low_surrogate u = (0xDC00 \<le> u \<and> u \<le> 0xDFFF)"

fun codePoints :: "js_string \<Rightarrow> nat list" where
  "codePoints (h # l # us) =
     (if is_high_surrogate h \<and> is_low_surrogate l
      then (0x10000 + (h - 0xD800) * 0x400 + (l - 0xDC00)) # codePoints us
      else h # codePoints (l # us))"
| "codePoints [u] = [u]"
| "codePoints [] = []"

text \<open>
  A number of the source is a double. The only arithmetic of the program is the quotient
  of two counts compared with \<^verbatim>\<open>0.8\<close>: \<^verbatim>\<open>0/0\<close> is NaN, a positive count over
  zero is infinity, and a comparison with NaN is false. A finite quotient is kept exact,
  which agrees with the rounded comparison (lemma \<open>rounded_comparison_agrees\<close>).
\<close>

datatype js_number = NaN | Infinity | Finite rat

definition js_div :: "nat \<Rightarrow> nat \<Rightarrow> js_number" where
  "js_div a b =
     (if b = 0 then (if a = 0 then NaN else Infinity)
      else Finite (rat_of_nat a / rat_of_nat b))"

fun js_gt :: "js_number \<Rightarrow> rat \<Rightarrow> bool" where
  "js_gt NaN c = False"
| "js_gt Infinity c = True"
| "js_gt (Finite q) c = (q > c)"

subsection \<open>The font catalog\<close>

record font_config =
  name :: string
  "file" :: string
  description :: string
  unicodeRanges :: "(nat \<times> nat) list"

definition NotoSansSC :: font_config where
  "NotoSansSC = \<lparr>
     name = ''NotoSansSC'',
     file = ''NotoSansSC-VariableFont_wght.ttf'',
     description = ''Chinese Simplified'',
     unicodeRanges = [
       (0x4E00, 0x9FFF), (0x3400, 0x4DBF), (0x20000, 0x2A6DF), (0x2A700, 0x2B73F),
       (0x2B740, 0x2B81F), (0x2B820, 0x2CEAF), (0x2CEB0, 0x2EBEF), (0x3000, 0x303F),
       (0xFF00, 0xFFEF)] \<rparr>"

definition DejaVuSans :: font_config where
  "DejaVuSans = \<lparr>
     name = ''DejaVuSans'',
     file = ''DejaVuSans.ttf'',
     description = ''Latin, Cyrillic, Greek'',
     unicodeRanges = [
       (0x0000, 0x007F), (0x0080, 0x00FF), (0x0100, 0x017F), (0x0180, 0x024F),
       (0x0370, 0x03FF), (0x0400, 0x04FF), (0x0500, 0x052F), (0x1E00, 0x1EFF),
       (0x2000, 0x206F), (0x20A0, 0x20CF)] \<rparr>"

definition FONT_CONFIG :: "font_config list" where
  "FONT_CONFIG = [NotoSansSC, DejaVuSans]"

subsection \<open>The file system\<close>

text \<open>
  \<^verbatim>\<open>fs.existsSync\<close> answers for a path, \<^verbatim>\<open>fs.readFileSync\<close> returns the bytes or
  throws. \<^verbatim>\<open>fontsDir\<close> is \<^verbatim>\<open>path.join(process.cwd(), 'src', 'assets', 'fonts')\<close>.
\<close>

text \<open>
  A thrown value is an \<^verbatim>\<open>Error\<close> object with its message, or a bare string, which
  the renderer throws for some images. \<^verbatim>\<open>e.message\<close> of a string is undefined:
  it is falsy, and a template literal or \<^verbatim>\<open>+\<close> renders it as the text
  \<^verbatim>\<open>undefined\<close>. No collaborator of the program throws null or undefined, and the
  type has no such value.
\<close>

datatype exn = Error js_string | Thrown_string js_string

fun message :: "exn \<Rightarrow> js_string option" where
  "message (Error m) = Some m"
| "message (Thrown_string s) = None"

definition to_text :: "js_string option \<Rightarrow> js_string" where
  "to_text v = (case v of Some s \<Rightarrow> s | None \<Rightarrow> str ''undefined'')"

record file_system =
  fontsDir :: string
  existsSync :: "string \<Rightarrow> bool"
  readFileSync :: "string \<Rightarrow> exn + buffer"

definition path_join :: "string \<Rightarrow> string \<Rightarrow> string" where
  "path_join dir f = dir @ ''/'' @ f"

subsection \<open>The font manager\<close>

text \<open>
  \<^verbatim>\<open>loadedFonts\<close> is a \<^verbatim>\<open>Map\<close>: an association list in insertion order with one
  entry for each key. \<^verbatim>\<open>fontPriority\<close> is an array of names.
\<close>

record FontManager =
  loadedFonts :: "(string \<times> buffer) list"
  fontPriority :: "string list"

fun map_set :: "string \<Rightarrow> buffer \<Rightarrow> (string \<times> buffer) list \<Rightarrow> (string \<times> buffer) list" where
  "map_set k v [] = [(k, v)]"
| "map_set k v ((k', v') # m) = (if k' = k then (k, v) # m else (k', v') # map_set k v m)"

definition map_get :: "string \<Rightarrow> (string \<times> buffer) list \<Rightarrow> buffer option" where
  "map_get k m = map_of m k"

definition loadFont :: "file_system \<Rightarrow> font_config \<Rightarrow> FontManager \<Rightarrow> FontManager" where
  "loadFont fs fontConfig fm =
     (let fontPath = path_join (fontsDir fs) (file fontConfig) in
      if existsSync fs fontPath then
        (case readFileSync fs fontPath of
           Inr fontBuffer \<Rightarrow>
             fm \<lparr> loadedFonts := map_set (name fontConfig) fontBuffer (loadedFonts fm),
                  fontPriority := fontPriority fm @ [name fontConfig] \<rparr>
         | Inl err \<Rightarrow> fm)
      else fm)"

definition loadAvailableFonts :: "file_system \<Rightarrow> FontManager \<Rightarrow> FontManager" where
  "loadAvailableFonts fs fm = foldl (\<lambda>m fontConfig. loadFont fs fontConfig m) fm FONT_CONFIG"

definition new_FontManager :: "file_system \<Rightarrow> FontManager" where
  "new_FontManager fs = loadAvailableFonts fs \<lparr> loadedFonts = [], fontPriority = [] \<rparr>"

definition isCodePointSupported :: "nat \<Rightarrow> (nat \<times> nat) list \<Rightarrow> bool" where
  "isCodePointSupported codePoint ranges =
     list_ex (\<lambda>(start, stop). codePoint \<ge> start \<and> codePoint \<le> stop) ranges"

definition supportedChars :: "font_config \<Rightarrow> nat list \<Rightarrow> nat" where
  "supportedChars fontConfig textCodePoints =
     length (filter (\<lambda>codePoint. isCodePointSupported codePoint (unicodeRanges fontConfig))
               textCodePoints)"

definition exceeds_threshold :: "font_config \<Rightarrow> nat list \<Rightarrow> bool" where
  "exceeds_threshold fontConfig textCodePoints =
     js_gt (js_div (supportedChars fontConfig textCodePoints) (length textCodePoints)) (8 / 10)"

text \<open>
  The priority loop: \<open>None\<close> when it runs to its end, \<open>Some r\<close> when it returns \<open>r\<close>
  from the function. A \<^verbatim>\<open>Buffer\<close> is an object and so truthy, hence
  \<^verbatim>\<open>this.loadedFonts.get(fontName) || null\<close> is the entry, or null when there is none.
\<close>

fun priority_loop :: "FontManager \<Rightarrow> nat list \<Rightarrow> string list \<Rightarrow> buffer option option" where
  "priority_loop fm textCodePoints [] = None"
| "priority_loop fm textCodePoints (fontName # rest) =
     (case find (\<lambda>f. name f = fontName) FONT_CONFIG of
        None \<Rightarrow> priority_loop fm textCodePoints rest
      | Some fontConfig \<Rightarrow>
          if exceeds_threshold fontConfig textCodePoints
          then Some (map_get fontName (loadedFonts fm))
          else priority_loop fm textCodePoints rest)"

definition getBestFontForText :: "FontManager \<Rightarrow> js_string \<Rightarrow> buffer option" where
  "getBestFontForText fm text =
     (if length (loadedFonts fm) = 0 then None
      else
        let textCodePoints = map (\<lambda>codePoint. if codePoint = 0 then 0 else codePoint)
                               (codePoints text)
        in case priority_loop fm textCodePoints (fontPriority fm) of
             Some r \<Rightarrow> r
           | None \<Rightarrow>
               (case fontPriority fm of
                  [] \<Rightarrow> None
                | firstFont # _ \<Rightarrow>
                    if firstFont = [] then None else map_get firstFont (loadedFonts fm)))"

definition getAvailableFonts :: "FontManager \<Rightarrow> string list" where
  "getAvailableFonts fm = map fst (loadedFonts fm)"

text \<open>
  A call of the method on a manager object: the selection, and the object as the call
  leaves it. The body reads \<^verbatim>\<open>this.loadedFonts\<close> (\<^verbatim>\<open>size\<close>, \<^verbatim>\<open>get\<close>) and
  \<^verbatim>\<open>this.fontPriority\<close> (iteration, index 0) and assigns to no field, so the object
  after the call has the fields it had before. A sequence of calls on one object hands
  the object of each call to the next.
\<close>

definition call_getBestFontForText ::
  "FontManager \<Rightarrow> js_string \<Rightarrow> buffer option \<times> FontManager" where
  "call_getBestFontForText fm text = (getBestFontForText fm text, fm)"

fun call_sequence :: "FontManager \<Rightarrow> js_string list \<Rightarrow> buffer option list" where
  "call_sequence fm [] = []"
| "call_sequence fm (text # texts) =
     (case call_getBestFontForText fm text of
        (selection, fm') \<Rightarrow> selection # call_sequence fm' texts)"

subsection \<open>Trimming and splitting\<close>

text \<open>
  \<^verbatim>\<open>String.prototype.trim\<close> removes the white space and line terminators of the
  language at both ends; the class \<^verbatim>\<open>\s\<close> of a regular expression is the same set.
\<close>

definition is_whitespace :: "nat \<Rightarrow> bool" where
  "is_whitespace u =
     (u \<in> set [0x09, 0x0A, 0x0B, 0x0C, 0x0D, 0x20, 0xA0, 0x1680, 0x2028, 0x2029, 0x202F,
               0x205F, 0x3000, 0xFEFF]
      \<or> (0x2000 \<le> u \<and> u \<le> 0x200A))"

definition trim :: "js_string \<Rightarrow> js_string" where
  "trim s = rev (dropWhile is_whitespace (rev (dropWhile is_whitespace s)))"

text \<open>
  \<^verbatim>\<open>text.split(/\n\s*\n/)\<close>. A match starts at a line feed; the greedy \<^verbatim>\<open>\s*\<close>
  then backtracks to the last line feed of the white space that follows, so the match
  has \<open>k + 2\<close> units when that line feed is at index \<open>k\<close> of the white space.
  \<open>split_from skip cur s\<close> reads \<open>s\<close> with \<open>skip\<close> units of a match still to pass
  and \<open>cur\<close> the piece collected so far.
\<close>

fun last_newline :: "js_string \<Rightarrow> nat option" where
  "last_newline [] = None"
| "last_newline (c # cs) =
     (case last_newline cs of
        Some k \<Rightarrow> Some (Suc k)
      | None \<Rightarrow> if c = 0x0A then Some 0 else None)"

definition match_blank_line :: "js_string \<Rightarrow> nat option" where
  "match_blank_line s =
     (case s of
        [] \<Rightarrow> None
      | c # cs \<Rightarrow>
          if c = 0x0A
          then (case last_newline (takeWhile is_whitespace cs) of
                  Some k \<Rightarrow> Some (k + 2)
                | None \<Rightarrow> None)
          else None)"

fun split_from :: "nat \<Rightarrow> js_string \<Rightarrow> js_string \<Rightarrow> js_string list" where
  "split_from skip cur [] = [cur]"
| "split_from (Suc skip) cur (c # cs) = split_from skip cur cs"
| "split_from 0 cur (c # cs) =
     (case match_blank_line (c # cs) of
        Some n \<Rightarrow> cur # split_from (n - 1) [] cs
      | None \<Rightarrow> split_from 0 (cur @ [c]) cs)"

definition split_paragraphs :: "js_string \<Rightarrow> js_string list" where
  "split_paragraphs s = split_from 0 [] s"

subsection \<open>The PDF renderer\<close>

text \<open>
  The document of the renderer is the sequence of the calls that completed on it. Which
  call throws on which document, and what \<^verbatim>\<open>pdfDoc.end()\<close> leads to, is the
  renderer's matter: the model takes both as functions. The options of the calls are
  constants of the source and are part of the constructor's meaning:
  \<open>TextLeft\<close> is \<^verbatim>\<open>text(p, {align: 'left', lineGap: 4, paragraphGap: 8, width: page.width - 144})\<close>,
  \<open>TextCenter\<close> is \<^verbatim>\<open>text(t, {align: 'center'})\<close>, \<open>MoveDown\<close> is \<^verbatim>\<open>moveDown(0.5)\<close>,
  \<open>Image\<close> is \<^verbatim>\<open>image(buffer, {fit: [page.width - 144, page.height - 144], align: 'center', valign: 'center'})\<close>.
\<close>

datatype font_arg = Custom buffer | Helvetica

datatype pdf_call =
    NewDocument
  | AddPage
  | SetFont font_arg
  | FontSize nat
  | TextLeft js_string
  | MoveDown
  | Image buffer
  | TextCenter js_string

type_synonym pdf_doc = "pdf_call list"

datatype finalization =
    EndEvent "buffer list"
  | ErrorEvent exn
  | EndThrows exn
  | NoEvent

record renderer =
  throws :: "pdf_doc \<Rightarrow> pdf_call \<Rightarrow> exn option"
  finish :: "pdf_doc \<Rightarrow> finalization"

text \<open>
  A sequence of calls stops at the first that throws; the document keeps the calls made
  before it.
\<close>

fun calls :: "renderer \<Rightarrow> pdf_call list \<Rightarrow> pdf_doc \<Rightarrow> exn option \<times> pdf_doc" where
  "calls r [] doc = (None, doc)"
| "calls r (c # cs) doc =
     (case throws r doc c of
        Some e \<Rightarrow> (Some e, doc)
      | None \<Rightarrow> calls r cs (doc @ [c]))"

definition font_for :: "FontManager \<Rightarrow> js_string \<Rightarrow> font_arg" where
  "font_for fontManager s =
     (case getBestFontForText fontManager s of
        Some fontBuffer \<Rightarrow> Custom fontBuffer
      | None \<Rightarrow> Helvetica)"

subsection \<open>processTextWithFonts\<close>

definition render_paragraph ::
  "renderer \<Rightarrow> FontManager \<Rightarrow> js_string \<Rightarrow> pdf_doc \<Rightarrow> exn option \<times> pdf_doc" where
  "render_paragraph r fontManager paragraph doc =
     (if trim paragraph = [] then (None, doc)
      else
        (case calls r [SetFont (font_for fontManager paragraph), FontSize 12,
                       TextLeft (trim paragraph), MoveDown] doc of
           (None, doc') \<Rightarrow> (None, doc')
         | (Some fontError, doc') \<Rightarrow>
             calls r [SetFont Helvetica, FontSize 12, TextLeft (trim paragraph), MoveDown] doc'))"

fun render_paragraphs ::
  "renderer \<Rightarrow> FontManager \<Rightarrow> js_string list \<Rightarrow> pdf_doc \<Rightarrow> exn option \<times> pdf_doc" where
  "render_paragraphs r fontManager [] doc = (None, doc)"
| "render_paragraphs r fontManager (paragraph # paragraphs) doc =
     (case render_paragraph r fontManager paragraph doc of
        (Some e, doc') \<Rightarrow> (Some e, doc')
      | (None, doc') \<Rightarrow> render_paragraphs r fontManager paragraphs doc')"

definition processTextWithFonts ::
  "renderer \<Rightarrow> pdf_doc \<Rightarrow> js_string \<Rightarrow> FontManager \<Rightarrow> exn option \<times> pdf_doc" where
  "processTextWithFonts r pdfDoc text fontManager =
     render_paragraphs r fontManager
       (filter (\<lambda>p. trim p \<noteq> []) (split_paragraphs text)) pdfDoc"

subsection \<open>processImages\<close>

record image =
  buffer :: buffer
  contentType :: js_string

definition process_image ::
  "renderer \<Rightarrow> FontManager \<Rightarrow> image \<Rightarrow> pdf_doc \<Rightarrow> exn option \<times> pdf_doc" where
  "process_image r fontManager img doc =
     (case calls r [AddPage] doc of
        (Some e, doc') \<Rightarrow> (Some e, doc')
      | (None, doc1) \<Rightarrow>
          (case (if contentType img = str ''image/jpeg'' \<or> contentType img = str ''image/png''
                 then calls r [Image (buffer img)] doc1
                 else
                   let errorText = str ''[Unsupported image type: '' @ contentType img @ str '']''
                   in calls r [SetFont (font_for fontManager errorText), FontSize 10,
                               TextCenter errorText] doc1) of
             (None, doc2) \<Rightarrow> (None, doc2)
           | (Some imgError, doc2) \<Rightarrow>
               let errorText =
                     str ''[Error embedding image: '' @ to_text (message imgError) @ str '']''
               in calls r [SetFont (font_for fontManager errorText), FontSize 10,
                           TextCenter errorText] doc2))"

fun processImages ::
  "renderer \<Rightarrow> pdf_doc \<Rightarrow> image list \<Rightarrow> FontManager \<Rightarrow> exn option \<times> pdf_doc" where
  "processImages r pdfDoc [] fontManager = (None, pdfDoc)"
| "processImages r pdfDoc (img # images) fontManager =
     (case process_image r fontManager img pdfDoc of
        (Some e, doc') \<Rightarrow> (Some e, doc')
      | (None, doc') \<Rightarrow> processImages r doc' images fontManager)"

subsection \<open>convertWordToPdfAction\<close>

record ConvertWordToPdfInput =
  docxFileBase64 :: js_string
  originalFileName :: js_string

record ConvertWordToPdfOutput =
  pdfDataUri :: "js_string option"
  error :: "js_string option"

text \<open>
  The collaborators of a conversion: the file system of the fonts,
  \<^verbatim>\<open>Buffer.from(s, 'base64')\<close> and \<^verbatim>\<open>toString('base64')\<close>, the two calls of the
  document extractor (the text, and the images its \<^verbatim>\<open>convertImage\<close> callback pushes),
  and the renderer. The extractor's promises reject with an error or fulfil.
\<close>

record environment =
  files :: file_system
  base64_decode :: "js_string \<Rightarrow> buffer"
  base64_encode :: "buffer \<Rightarrow> js_string"
  extractRawText :: "buffer \<Rightarrow> exn + js_string"
  convertToHtml :: "buffer \<Rightarrow> exn + image list"
  pdfkit :: renderer

text \<open>
  The function is declared at module level and reads \<^verbatim>\<open>this\<close> in its body, so its
  receiver is an input of the call. A module is strict code: a plain call leaves
  \<^verbatim>\<open>this\<close> undefined, \<^verbatim>\<open>f.apply(null, args)\<close> makes it null, and a call on an
  object makes it that object, given here by the names of the functions of this module
  it carries as methods. \<^verbatim>\<open>this.m(...)\<close> throws a TypeError unless the receiver is
  an object with the method \<^verbatim>\<open>m\<close>; the messages are worded as V8 words them.
\<close>

datatype this_value = Undefined | Null | Object "string list"

definition quoted :: "string \<Rightarrow> string" where
  "quoted n = CHR 0x27 # n @ [CHR 0x27]"

fun this_method :: "this_value \<Rightarrow> string \<Rightarrow> exn option" where
  "this_method Undefined m =
     Some (Error (str (''Cannot read properties of undefined (reading '' @ quoted m @ '')'')))"
| "this_method Null m =
     Some (Error (str (''Cannot read properties of null (reading '' @ quoted m @ '')'')))"
| "this_method (Object methods) m =
     (if m \<in> set methods then None
      else Some (Error (str (''this.'' @ m @ '' is not a function''))))"

text \<open>
  The promise an \<^verbatim>\<open>async\<close> function returns: fulfilled with a value, rejected with
  a reason (a thrown error, or the object handed to \<^verbatim>\<open>reject\<close>), or never settled.
\<close>

datatype rejection = Thrown exn | Reason ConvertWordToPdfOutput

datatype outcome = Resolved ConvertWordToPdfOutput | Rejected rejection | Pending

fun js_includes :: "js_string \<Rightarrow> js_string \<Rightarrow> bool" where
  "js_includes [] sub = (sub = [])"
| "js_includes (c # cs) sub = (take (length sub) (c # cs) = sub \<or> js_includes cs sub)"

definition error_result :: "js_string \<Rightarrow> ConvertWordToPdfOutput" where
  "error_result msg = \<lparr> pdfDataUri = None, error = Some msg \<rparr>"

text \<open>The \<^verbatim>\<open>catch\<close> block of the function.\<close>

definition catch_block :: "exn \<Rightarrow> ConvertWordToPdfOutput" where
  "catch_block e =
     (let errorMessage = str ''Failed to convert Word document. '' @ to_text (message e) in
      if (case message e of
            Some m \<Rightarrow> m \<noteq> [] \<and> js_includes m (str ''Unrecognised Office Open XML'')
          | None \<Rightarrow> False)
      then error_result
             (str ''The uploaded file does not appear to be a valid .docx file or is corrupted.'')
      else error_result errorMessage)"

text \<open>
  The promise built at the end of the \<^verbatim>\<open>try\<close> block. Its executor registers the
  two listeners and calls \<^verbatim>\<open>pdfDoc.end()\<close>; an exception of the executor rejects the
  promise. The function returns this promise without awaiting it, so its settlement is
  the settlement of the function's own promise and the \<^verbatim>\<open>catch\<close> block is not
  involved.
\<close>

definition finalize :: "environment \<Rightarrow> pdf_doc \<Rightarrow> outcome" where
  "finalize env pdfDoc =
     (case finish (pdfkit env) pdfDoc of
        EndEvent pdfChunks \<Rightarrow>
          Resolved \<lparr> pdfDataUri =
                       Some (str ''data:application/pdf;base64,'' @
                             base64_encode env (concat pdfChunks)),
                     error = None \<rparr>
      | ErrorEvent err \<Rightarrow>
          Rejected (Reason (error_result
                      (str ''Failed to finalize PDF document. '' @ to_text (message err))))
      | EndThrows e \<Rightarrow> Rejected (Thrown e)
      | NoEvent \<Rightarrow> Pending)"

text \<open>
  The \<^verbatim>\<open>try\<close> block: \<open>Inl e\<close> when it throws \<open>e\<close>, \<open>Inr p\<close> when it returns.
\<close>

definition try_block :: "environment \<Rightarrow> this_value \<Rightarrow> ConvertWordToPdfInput \<Rightarrow> exn + outcome" where
  "try_block env this input =
     (let docxFileBuffer = base64_decode env (docxFileBase64 input) in
      if length docxFileBuffer = 0
      then Inr (Resolved (error_result
                  (str ''Empty DOCX file data received after base64 decoding.'')))
      else
        let fontManager = new_FontManager (files env) in
        case extractRawText env docxFileBuffer of
          Inl e \<Rightarrow> Inl e
        | Inr textContent \<Rightarrow>
            if trim textContent = []
            then Inr (Resolved (error_result (str ''No text content found in the document.'')))
            else
              (case convertToHtml env docxFileBuffer of
                 Inl e \<Rightarrow> Inl e
               | Inr images \<Rightarrow>
                   (case calls (pdfkit env) [NewDocument, AddPage] [] of
                      (Some e, pdfDoc) \<Rightarrow> Inl e
                    | (None, pdfDoc) \<Rightarrow>
                        (case this_method this ''processTextWithFonts'' of
                           Some e \<Rightarrow> Inl e
                         | None \<Rightarrow>
                             (case processTextWithFonts (pdfkit env) pdfDoc textContent
                                     fontManager of
                                (Some e, pdfDoc) \<Rightarrow> Inl e
                              | (None, pdfDoc) \<Rightarrow>
                                  if length images > 0
                                  then
                                    (case this_method this ''processImages'' of
                                       Some e \<Rightarrow> Inl e
                                     | None \<Rightarrow>
                                         (case processImages (pdfkit env) pdfDoc images
                                                 fontManager of
                                            (Some e, pdfDoc) \<Rightarrow> Inl e
                                          | (None, pdfDoc) \<Rightarrow> Inr (finalize env pdfDoc)))
                                  else Inr (finalize env pdfDoc))))))"

definition convertWordToPdfAction ::
  "environment \<Rightarrow> this_value \<Rightarrow> ConvertWordToPdfInput \<Rightarrow> outcome" where
  "convertWordToPdfAction env this input =
     (if docxFileBase64 input = []
      then Resolved (error_result (str ''No DOCX file data provided for conversion.''))
      else
        (case try_block env this input of
           Inr p \<Rightarrow> p
         | Inl e \<Rightarrow> Resolved (catch_block e)))"

subsection \<open>Notions used to state the properties\<close>

text \<open>
  \<open>readFont\<close> is what the constructor's attempt to read the file of a font yields;
  \<open>coverage\<close> is the coverage fraction of a font on a text, the number of supported
  code points over the number of code points.
\<close>

definition readFont :: "file_system \<Rightarrow> font_config \<Rightarrow> buffer option" where
  "readFont fs fontConfig =
     (let fontPath = path_join (fontsDir fs) (file fontConfig) in
      if existsSync fs fontPath then
        (case readFileSync fs fontPath of Inr fontBuffer \<Rightarrow> Some fontBuffer | Inl err \<Rightarrow> None)
      else None)"

definition coverage :: "font_config \<Rightarrow> js_string \<Rightarrow> rat" where
  "coverage fontConfig text =
     rat_of_nat (supportedChars fontConfig (codePoints text)) / rat_of_nat (length (codePoints text))"

subsection \<open>Example inputs\<close>

definition example_fs :: file_system where
  "example_fs = \<lparr> fontsDir = ''fonts'', existsSync = (\<lambda>p. True),
     readFileSync = (\<lambda>p. if p = ''fonts/DejaVuSans.ttf'' then Inr [2] else Inr [1]) \<rparr>"

definition mostly_cjk :: js_string where
  "mostly_cjk = [0x4E2D, 0x6587, 0x5B57, 0x4F53, 0x9009, 0x62E9, 0x6D4B, 0x8BD5, 0x6587, 0x2E]"

definition arabic_text :: js_string where
  "arabic_text = [0x0645, 0x0631, 0x062D, 0x0628, 0x0627]"


definition only_latin_fs :: file_system where
  "only_latin_fs = \<lparr> fontsDir = ''fonts'', existsSync = (\<lambda>p. p = ''fonts/DejaVuSans.ttf''),
     readFileSync = (\<lambda>p. Inr [7, 7]) \<rparr>"

definition working_renderer :: renderer where
  "working_renderer = \<lparr> throws = (\<lambda>doc c. None), finish = (\<lambda>doc. EndEvent [[37, 80, 68, 70]]) \<rparr>"

definition hello_env :: environment where
  "hello_env = \<lparr> files = example_fs,
     base64_decode = (\<lambda>s. [80, 75, 3, 4]),
     base64_encode = (\<lambda>b. str ''JVBERg==''),
     extractRawText = (\<lambda>b. Inr (str ''Hello'')),
     convertToHtml = (\<lambda>b. Inr []),
     pdfkit = working_renderer \<rparr>"

definition hello_input :: ConvertWordToPdfInput where
  "hello_input = \<lparr> docxFileBase64 = str ''UEsDBA=='', originalFileName = str ''hello.docx'' \<rparr>"

definition image_only_env :: environment where
  "image_only_env = \<lparr> files = example_fs,
     base64_decode = (\<lambda>s. [80, 75, 3, 4]),
     base64_encode = (\<lambda>b. str ''JVBERg==''),
     extractRawText = (\<lambda>b. Inr [10, 10]),
     convertToHtml = (\<lambda>b. Inr [\<lparr> buffer = [137, 80, 78, 71], contentType = str ''image/png'' \<rparr>]),
     pdfkit = working_renderer \<rparr>"

definition empty_payload_env :: environment where
  "empty_payload_env = \<lparr> files = example_fs,
     base64_decode = (\<lambda>s. []),
     base64_encode = (\<lambda>b. []),
     extractRawText = (\<lambda>b. Inr (str ''Hello'')),
     convertToHtml = (\<lambda>b. Inr []),
     pdfkit = working_renderer \<rparr>"

definition module_object :: this_value where
  "module_object = Object [''processTextWithFonts'', ''processImages'']"

definition broken_stream_env :: environment where
  "broken_stream_env = hello_env \<lparr> pdfkit :=
     \<lparr> throws = (\<lambda>doc c. None), finish = (\<lambda>doc. ErrorEvent (Error (str ''write EPIPE''))) \<rparr> \<rparr>"

definition hello_doc :: pdf_doc where
  "hello_doc = [NewDocument, AddPage, SetFont (Custom [2]), FontSize 12, TextLeft (str ''Hello''),
                MoveDown]"

definition image_failing_renderer :: renderer where
  "image_failing_renderer =
     \<lparr> throws = (\<lambda>doc c. case c of Image b \<Rightarrow> Some (Error (str ''Unknown image format.''))
                             | _ \<Rightarrow> None),
       finish = (\<lambda>doc. EndEvent [[37, 80, 68, 70]]) \<rparr>"

definition bmp_image :: image where
  "bmp_image = \<lparr> buffer = [66, 77], contentType = str ''image/bmp'' \<rparr>"

definition png_image :: image where
  "png_image = \<lparr> buffer = [137, 80, 78, 71], contentType = str ''image/png'' \<rparr>"

definition bmp_env :: environment where
  "bmp_env = hello_env \<lparr> convertToHtml := (\<lambda>b. Inr [bmp_image]) \<rparr>"

definition bad_font_renderer :: renderer where
  "bad_font_renderer =
     \<lparr> throws = (\<lambda>doc c. case c of SetFont (Custom b) \<Rightarrow> Some (Error (str ''Unknown font format''))
                             | _ \<Rightarrow> None),
       finish = (\<lambda>doc. EndEvent [[37, 80, 68, 70]]) \<rparr>"

definition string_throwing_renderer :: renderer where
  "string_throwing_renderer =
     \<lparr> throws = (\<lambda>doc c. case c of Image b \<Rightarrow> Some (Thrown_string (str ''SOI not found in JPEG''))
                             | _ \<Rightarrow> None),
       finish = (\<lambda>doc. EndEvent [[37, 80, 68, 70]]) \<rparr>"

section \<open>Properties of the font manager\<close>

lemma loadFont_readFont:
  "loadFont fs c fm =
     (case readFont fs c of
        None \<Rightarrow> fm
      | Some b \<Rightarrow> fm \<lparr> loadedFonts := map_set (name c) b (loadedFonts fm),
                       fontPriority := fontPriority fm @ [name c] \<rparr>)"
  by (simp add: loadFont_def readFont_def Let_def split: sum.splits)

lemma new_FontManager_cases:
  "new_FontManager fs =
     (case readFont fs NotoSansSC of
        None \<Rightarrow>
          (case readFont fs DejaVuSans of
             None \<Rightarrow> \<lparr> loadedFonts = [], fontPriority = [] \<rparr>
           | Some d \<Rightarrow> \<lparr> loadedFonts = [(''DejaVuSans'', d)], fontPriority = [''DejaVuSans''] \<rparr>)
      | Some n \<Rightarrow>
          (case readFont fs DejaVuSans of
             None \<Rightarrow> \<lparr> loadedFonts = [(''NotoSansSC'', n)], fontPriority = [''NotoSansSC''] \<rparr>
           | Some d \<Rightarrow> \<lparr> loadedFonts = [(''NotoSansSC'', n), (''DejaVuSans'', d)],
                          fontPriority = [''NotoSansSC'', ''DejaVuSans''] \<rparr>))"
  by (simp add: new_FontManager_def loadAvailableFonts_def FONT_CONFIG_def loadFont_readFont
        NotoSansSC_def DejaVuSans_def split: option.splits)

lemma codePoints_nonempty: "s \<noteq> [] \<Longrightarrow> codePoints s \<noteq> []"
  by (induction s rule: codePoints.induct) auto

lemma js_gt_div:
  assumes "n \<noteq> 0"
  shows "js_gt (js_div s n) (8 / 10) = (4 * n < 5 * s)"
proof -
  have "(8 / 10 < rat_of_nat s / rat_of_nat n) = (8 / 10 * rat_of_nat n < rat_of_nat s)"
    using assms by (simp add: pos_less_divide_eq)
  also have "\<dots> = (rat_of_nat (4 * n) < rat_of_nat (5 * s))"
    by (simp add: mult.commute)
  also have "\<dots> = (4 * n < 5 * s)"
    by (rule of_nat_less_iff)
  finally show ?thesis using assms by (simp add: js_div_def)
qed

text \<open>
  The source computes the quotient and the constant in double precision. The double
  nearest to 0.8 is \<open>7205759403792794 / 2 ^ 53\<close>, with an even significand, and the
  quotient of two counts \<open>s \<le> n\<close> below \<open>2 ^ 53\<close> rounds to a double above it exactly
  when \<open>s / n\<close> is above \<open>(2 * 7205759403792794 + 1) / 2 ^ 54\<close>. For a text of fewer
  than \<open>2 ^ 50\<close> code points this is the comparison the model makes, so keeping the
  finite quotient exact loses nothing: a string of the language has fewer than
  \<open>2 ^ 53\<close> units.
\<close>

lemma rounded_comparison_agrees:
  assumes "n \<noteq> 0" and "n < 2 ^ 50" and "s \<le> n"
  shows "(14411518807585589 * n < s * 2 ^ 54) = js_gt (js_div s n) (8 / 10)"
  unfolding js_gt_div [OF assms(1)] using assms(2,3) by auto

lemma exceeds_threshold_iff:
  "exceeds_threshold c cps = (cps \<noteq> [] \<and> 5 * supportedChars c cps > 4 * length cps)"
proof (cases "cps = []")
  case True
  then show ?thesis by (simp add: exceeds_threshold_def js_div_def supportedChars_def)
next
  case False
  then have "length cps \<noteq> 0" by simp
  from js_gt_div [OF this] False show ?thesis by (simp add: exceeds_threshold_def)
qed

lemma find_Noto: "find (\<lambda>f. name f = ''NotoSansSC'') FONT_CONFIG = Some NotoSansSC"
  by (simp add: FONT_CONFIG_def NotoSansSC_def)

lemma find_DejaVu: "find (\<lambda>f. name f = ''DejaVuSans'') FONT_CONFIG = Some DejaVuSans"
  by (simp add: FONT_CONFIG_def NotoSansSC_def DejaVuSans_def)

lemma textCodePoints_id: "map (\<lambda>codePoint. if codePoint = 0 then 0 else codePoint) cps = cps"
  by (induction cps) auto

lemma coverage_iff:
  "s \<noteq> [] \<Longrightarrow> exceeds_threshold c (codePoints s) = (coverage c s > 8 / 10)"
  using codePoints_nonempty [of s]
  by (simp add: exceeds_threshold_def js_div_def coverage_def)

lemma getBestFontForText_new:
  "getBestFontForText (new_FontManager fs) s =
     (case readFont fs NotoSansSC of
        None \<Rightarrow> readFont fs DejaVuSans
      | Some n \<Rightarrow>
          (case readFont fs DejaVuSans of
             None \<Rightarrow> Some n
           | Some d \<Rightarrow>
               if exceeds_threshold NotoSansSC (codePoints s) then Some n
               else if exceeds_threshold DejaVuSans (codePoints s) then Some d
               else Some n))"
  by (simp add: new_FontManager_cases getBestFontForText_def textCodePoints_id find_Noto
        find_DejaVu map_get_def split: option.splits)

lemma FONT_CONFIG_set: "c \<in> set FONT_CONFIG \<longleftrightarrow> c = NotoSansSC \<or> c = DejaVuSans"
  by (auto simp: FONT_CONFIG_def)

lemma name_Noto: "name NotoSansSC = ''NotoSansSC''" by (simp add: NotoSansSC_def)

lemma name_DejaVu: "name DejaVuSans = ''DejaVuSans''" by (simp add: DejaVuSans_def)

lemma name_inj:
  "c \<in> set FONT_CONFIG \<Longrightarrow> name c = ''NotoSansSC'' \<Longrightarrow> c = NotoSansSC"
  "c \<in> set FONT_CONFIG \<Longrightarrow> name c = ''DejaVuSans'' \<Longrightarrow> c = DejaVuSans"
  by (auto simp: FONT_CONFIG_set name_Noto name_DejaVu)

lemma loaded_get:
  "c \<in> set FONT_CONFIG \<Longrightarrow> map_get (name c) (loadedFonts (new_FontManager fs)) = readFont fs c"
  by (auto simp: FONT_CONFIG_set new_FontManager_cases map_get_def name_Noto name_DejaVu
        split: option.splits)

lemma priority_new:
  "fontPriority (new_FontManager fs) =
     map name (filter (\<lambda>c. readFont fs c \<noteq> None) FONT_CONFIG)"
  by (auto simp: FONT_CONFIG_def new_FontManager_cases name_Noto name_DejaVu split: option.splits)

lemma first_match:
  assumes ne: "s \<noteq> []"
    and pri: "fontPriority (new_FontManager fs) = earlier @ name fontConfig # later"
    and mem: "fontConfig \<in> set FONT_CONFIG"
    and ex: "exceeds_threshold fontConfig (codePoints s)"
    and before: "\<forall>c \<in> set FONT_CONFIG. name c \<in> set earlier \<longrightarrow>
                   \<not> exceeds_threshold c (codePoints s)"
  shows "\<exists>b. getBestFontForText (new_FontManager fs) s = Some b \<and>
             map_get (name fontConfig) (loadedFonts (new_FontManager fs)) = Some b"
proof -
  have pri': "map name (filter (\<lambda>c. readFont fs c \<noteq> None) FONT_CONFIG)
                = earlier @ name fontConfig # later"
    using pri by (simp add: priority_new)
  have "\<exists>b. getBestFontForText (new_FontManager fs) s = Some b \<and> readFont fs fontConfig = Some b"
  proof (cases "readFont fs NotoSansSC")
    case None
    note n = None
    show ?thesis
    proof (cases "readFont fs DejaVuSans")
      case None
      with n pri' show ?thesis by (simp add: FONT_CONFIG_def)
    next
      case (Some d)
      with n pri' have "name fontConfig = ''DejaVuSans''"
        by (simp add: FONT_CONFIG_def Cons_eq_append_conv name_DejaVu)
      then have "fontConfig = DejaVuSans" using mem by (simp add: name_inj)
      with n Some show ?thesis
        by (simp add: getBestFontForText_new)
    qed
  next
    case (Some a)
    note n = Some
    show ?thesis
    proof (cases "readFont fs DejaVuSans")
      case None
      with n pri' have "name fontConfig = ''NotoSansSC''"
        by (simp add: FONT_CONFIG_def Cons_eq_append_conv name_Noto)
      then have "fontConfig = NotoSansSC" using mem by (simp add: name_inj)
      with n None show ?thesis
        by (simp add: getBestFontForText_new)
    next
      case (Some d)
      with n pri' have "earlier = [] \<and> name fontConfig = ''NotoSansSC'' \<or>
                       earlier = [''NotoSansSC''] \<and> name fontConfig = ''DejaVuSans''"
        by (auto simp: FONT_CONFIG_def Cons_eq_append_conv name_Noto name_DejaVu)
      then show ?thesis
      proof
        assume "earlier = [] \<and> name fontConfig = ''NotoSansSC''"
        then have c: "fontConfig = NotoSansSC"
          using mem by (simp add: name_inj)
        from ex c n Some show ?thesis
          by (simp add: getBestFontForText_new)
      next
        assume a: "earlier = [''NotoSansSC''] \<and> name fontConfig = ''DejaVuSans''"
        then have c: "fontConfig = DejaVuSans" using mem by (simp add: name_inj)
        from a before have "\<not> exceeds_threshold NotoSansSC (codePoints s)"
          by (simp add: FONT_CONFIG_set name_Noto)
        with ex c n Some show ?thesis
          by (simp add: getBestFontForText_new)
      qed
    qed
  qed
  with mem show ?thesis by (simp add: loaded_get)
qed

lemma coverage_full:
  assumes "s \<noteq> []"
    and "\<forall>cp \<in> set (codePoints s). isCodePointSupported cp (unicodeRanges c)"
  shows "coverage c s = 1"
proof -
  have "filter (\<lambda>cp. isCodePointSupported cp (unicodeRanges c)) (codePoints s) = codePoints s"
    using assms(2) by (simp add: filter_id_conv)
  then have "supportedChars c (codePoints s) = length (codePoints s)"
    by (simp add: supportedChars_def)
  moreover have "length (codePoints s) > 0"
    using codePoints_nonempty [OF assms(1)] by simp
  ultimately show ?thesis by (simp add: coverage_def)
qed

text \<open>
  Claim C3. For a non-empty text and a font manager with at least one loaded font,
  \<^verbatim>\<open>getBestFontForText\<close> returns the loaded bytes of the first font of the priority
  list whose coverage fraction (supported code points over all code points) is strictly
  above 0.8; nothing is asked of the fonts after it, so a later font with a higher
  coverage does not change the result. In particular: when the CJK font heads the
  priority list, a text with nine tenths of its code points in the CJK ranges and one
  tenth in the Latin ranges selects the CJK font; and a text whose code points all lie
  in the ranges of one loaded font selects that font when no earlier font is above the
  threshold.
\<close>

theorem getBestFontForText_first_match:
  assumes "text \<noteq> []" and "fm = new_FontManager fs" and "loadedFonts fm \<noteq> []"
  shows
    "(\<forall>earlier later fontConfig.
        fontPriority fm = earlier @ name fontConfig # later \<and> fontConfig \<in> set FONT_CONFIG \<and>
        coverage fontConfig text > 8 / 10 \<and>
        (\<forall>c \<in> set FONT_CONFIG. name c \<in> set earlier \<longrightarrow> \<not> coverage c text > 8 / 10)
        \<longrightarrow> (\<exists>b. getBestFontForText fm text = Some b \<and>
                  map_get (name fontConfig) (loadedFonts fm) = Some b))
     \<and> (\<forall>later.
        fontPriority fm = name NotoSansSC # later \<and>
        coverage NotoSansSC text = 9 / 10 \<and> coverage DejaVuSans text = 1 / 10
        \<longrightarrow> (\<exists>b. getBestFontForText fm text = Some b \<and>
                  map_get (name NotoSansSC) (loadedFonts fm) = Some b))
     \<and> (\<forall>earlier later fontConfig.
        fontPriority fm = earlier @ name fontConfig # later \<and> fontConfig \<in> set FONT_CONFIG \<and>
        (\<forall>cp \<in> set (codePoints text). isCodePointSupported cp (unicodeRanges fontConfig)) \<and>
        (\<forall>c \<in> set FONT_CONFIG. name c \<in> set earlier \<longrightarrow> \<not> coverage c text > 8 / 10)
        \<longrightarrow> (\<exists>b. getBestFontForText fm text = Some b \<and>
                  map_get (name fontConfig) (loadedFonts fm) = Some b))"
proof -
  have general: "\<exists>b. getBestFontForText fm text = Some b \<and>
                    map_get (name fontConfig) (loadedFonts fm) = Some b"
    if "fontPriority fm = earlier @ name fontConfig # later" and "fontConfig \<in> set FONT_CONFIG"
      and "coverage fontConfig text > 8 / 10"
      and "\<forall>c \<in> set FONT_CONFIG. name c \<in> set earlier \<longrightarrow> \<not> coverage c text > 8 / 10"
    for earlier later fontConfig
    using that assms(1,2) first_match [of "text" fs earlier fontConfig later]
    by (simp add: coverage_iff)
  have cjk: "\<exists>b. getBestFontForText fm text = Some b \<and>
                map_get (name NotoSansSC) (loadedFonts fm) = Some b"
    if "fontPriority fm = name NotoSansSC # later" and "coverage NotoSansSC text = 9 / 10"
    for later
    using that general [of "[]" NotoSansSC later] by (simp add: FONT_CONFIG_set)
  have inside: "\<exists>b. getBestFontForText fm text = Some b \<and>
                   map_get (name fontConfig) (loadedFonts fm) = Some b"
    if "fontPriority fm = earlier @ name fontConfig # later" and "fontConfig \<in> set FONT_CONFIG"
      and "\<forall>cp \<in> set (codePoints text). isCodePointSupported cp (unicodeRanges fontConfig)"
      and "\<forall>c \<in> set FONT_CONFIG. name c \<in> set earlier \<longrightarrow> \<not> coverage c text > 8 / 10"
    for earlier later fontConfig
    using that general [of earlier fontConfig later] coverage_full [OF assms(1), of fontConfig]
    by simp
  from general cjk inside show ?thesis by blast
qed

lemma example_fs_read:
  "readFont example_fs NotoSansSC = Some [1]" "readFont example_fs DejaVuSans = Some [2]"
  by (simp_all add: readFont_def example_fs_def path_join_def NotoSansSC_def DejaVuSans_def)

lemma example_fm:
  "new_FontManager example_fs =
     \<lparr> loadedFonts = [(''NotoSansSC'', [1]), (''DejaVuSans'', [2])],
       fontPriority = [''NotoSansSC'', ''DejaVuSans''] \<rparr>"
  by (simp add: new_FontManager_cases example_fs_read)

lemma mostly_cjk_coverage:
  "coverage NotoSansSC mostly_cjk = 9 / 10" "coverage DejaVuSans mostly_cjk = 1 / 10"
  by (simp_all add: coverage_def mostly_cjk_def supportedChars_def isCodePointSupported_def
        NotoSansSC_def DejaVuSans_def is_high_surrogate_def is_low_surrogate_def)

theorem getBestFontForText_first_match_witness:
  "mostly_cjk \<noteq> [] \<and> loadedFonts (new_FontManager example_fs) \<noteq> [] \<and>
   fontPriority (new_FontManager example_fs) = name NotoSansSC # [''DejaVuSans''] \<and>
   coverage NotoSansSC mostly_cjk = 9 / 10 \<and> coverage DejaVuSans mostly_cjk = 1 / 10 \<and>
   getBestFontForText (new_FontManager example_fs) mostly_cjk = Some [1]"
proof -
  have h1: "mostly_cjk \<noteq> []" by (simp add: mostly_cjk_def)
  have h2: "loadedFonts (new_FontManager example_fs) \<noteq> []" by (simp add: example_fm)
  have h3: "fontPriority (new_FontManager example_fs) = name NotoSansSC # [''DejaVuSans'']"
    by (simp add: example_fm name_Noto)
  have "\<exists>b. getBestFontForText (new_FontManager example_fs) mostly_cjk = Some b \<and>
            map_get (name NotoSansSC) (loadedFonts (new_FontManager example_fs)) = Some b"
    using getBestFontForText_first_match [OF h1 refl h2, THEN conjunct2, THEN conjunct1,
        rule_format, of "[''DejaVuSans'']"] h3 mostly_cjk_coverage
    by simp
  moreover have "map_get (name NotoSansSC) (loadedFonts (new_FontManager example_fs)) = Some [1]"
    by (simp add: example_fm name_Noto map_get_def)
  ultimately have "getBestFontForText (new_FontManager example_fs) mostly_cjk = Some [1]"
    by auto
  with h1 h2 h3 mostly_cjk_coverage show ?thesis by simp
qed

lemma no_match:
  assumes "\<forall>c \<in> set FONT_CONFIG. name c \<in> set (fontPriority (new_FontManager fs)) \<longrightarrow>
             \<not> exceeds_threshold c (codePoints s)"
  shows "getBestFontForText (new_FontManager fs) s =
           (case filter (\<lambda>c. readFont fs c \<noteq> None) FONT_CONFIG of
              [] \<Rightarrow> None | c # _ \<Rightarrow> readFont fs c)"
  using assms
  by (auto simp: getBestFontForText_new priority_new FONT_CONFIG_def name_Noto name_DejaVu
        split: option.splits)

lemma loaded_new:
  "loadedFonts (new_FontManager fs) =
     map (\<lambda>c. (name c, the (readFont fs c))) (filter (\<lambda>c. readFont fs c \<noteq> None) FONT_CONFIG)"
  by (auto simp: FONT_CONFIG_def new_FontManager_cases name_Noto name_DejaVu split: option.splits)

text \<open>
  Claim C4. For a non-empty text on which no loaded font has a coverage fraction above
  0.8: when at least one font is loaded, \<^verbatim>\<open>getBestFontForText\<close> returns the bytes of
  the head of the priority list, which is the first loaded font; when no font is loaded
  it returns null.
\<close>

theorem getBestFontForText_fallback:
  assumes "text \<noteq> []" and "fm = new_FontManager fs"
    and "\<forall>c \<in> set FONT_CONFIG. name c \<in> set (fontPriority fm) \<longrightarrow> \<not> coverage c text > 8 / 10"
  shows "(loadedFonts fm \<noteq> [] \<longrightarrow>
            (\<exists>firstFont rest b. fontPriority fm = firstFont # rest \<and>
               hd (loadedFonts fm) = (firstFont, b) \<and>
               getBestFontForText fm text = Some b))
       \<and> (loadedFonts fm = [] \<longrightarrow> getBestFontForText fm text = None)"
proof -
  have nm: "\<forall>c \<in> set FONT_CONFIG. name c \<in> set (fontPriority (new_FontManager fs)) \<longrightarrow>
              \<not> exceeds_threshold c (codePoints text)"
    using assms by (simp add: coverage_iff)
  show ?thesis
    unfolding assms(2) no_match [OF nm]
    by (auto simp: loaded_new priority_new FONT_CONFIG_def split: list.splits)
qed

lemma arabic_coverage:
  "coverage NotoSansSC arabic_text = 0" "coverage DejaVuSans arabic_text = 0"
  by (simp_all add: coverage_def arabic_text_def supportedChars_def isCodePointSupported_def
        NotoSansSC_def DejaVuSans_def is_high_surrogate_def is_low_surrogate_def)

theorem getBestFontForText_fallback_witness:
  "arabic_text \<noteq> [] \<and> loadedFonts (new_FontManager example_fs) \<noteq> [] \<and>
   coverage NotoSansSC arabic_text = 0 \<and> coverage DejaVuSans arabic_text = 0 \<and>
   fontPriority (new_FontManager example_fs) = [''NotoSansSC'', ''DejaVuSans''] \<and>
   getBestFontForText (new_FontManager example_fs) arabic_text = Some [1]"
proof -
  have h1: "arabic_text \<noteq> []" by (simp add: arabic_text_def)
  have h3: "\<forall>c \<in> set FONT_CONFIG. \<not> coverage c arabic_text > 8 / 10"
    by (simp add: FONT_CONFIG_def arabic_coverage)
  then have h3': "\<forall>c \<in> set FONT_CONFIG. name c \<in> set (fontPriority (new_FontManager example_fs))
                    \<longrightarrow> \<not> coverage c arabic_text > 8 / 10"
    by simp
  have "getBestFontForText (new_FontManager example_fs) arabic_text = Some [1]"
    using getBestFontForText_fallback [OF h1 refl h3', THEN conjunct1]
    by (simp add: example_fm)
  with h1 arabic_coverage show ?thesis by (simp add: example_fm)
qed

lemma readFont_Some:
  "readFont fs c = Some b \<longleftrightarrow>
     existsSync fs (path_join (fontsDir fs) (file c)) \<and>
     readFileSync fs (path_join (fontsDir fs) (file c)) = Inr b"
  by (auto simp: readFont_def Let_def split: sum.splits)

lemma getBest_result:
  "getBestFontForText (new_FontManager fs) s = None \<or>
   (\<exists>c \<in> set FONT_CONFIG. \<exists>b. getBestFontForText (new_FontManager fs) s = Some b \<and>
      readFont fs c = Some b)"
  by (auto simp: getBestFontForText_new FONT_CONFIG_set split: option.splits)

lemma loaded_entries:
  "(n, b) \<in> set (loadedFonts (new_FontManager fs)) \<longleftrightarrow>
     (\<exists>c \<in> set FONT_CONFIG. name c = n \<and> readFont fs c = Some b)"
  by (auto simp: loaded_new)

text \<open>
  Claim C5. The fonts a font manager holds after construction are fonts of the catalog
  \<^verbatim>\<open>FONT_CONFIG\<close>, each with the bytes read from its file; a catalog font whose file
  is missing or unreadable is not among them; and \<^verbatim>\<open>getBestFontForText\<close> returns
  either null or the bytes of an entry of the loaded fonts.
\<close>

theorem loaded_fonts_invariant:
  assumes "fm = new_FontManager fs"
  shows "set (getAvailableFonts fm) \<subseteq> name ` set FONT_CONFIG
       \<and> set (fontPriority fm) = set (getAvailableFonts fm)
       \<and> (\<forall>n b. (n, b) \<in> set (loadedFonts fm) \<longrightarrow>
             (\<exists>c \<in> set FONT_CONFIG. name c = n \<and>
                existsSync fs (path_join (fontsDir fs) (file c)) \<and>
                readFileSync fs (path_join (fontsDir fs) (file c)) = Inr b))
       \<and> (\<forall>c \<in> set FONT_CONFIG. readFont fs c = None \<longrightarrow> name c \<notin> set (getAvailableFonts fm))
       \<and> (\<forall>text. getBestFontForText fm text = None \<or>
             (\<exists>c \<in> set FONT_CONFIG. \<exists>b. getBestFontForText fm text = Some b \<and>
                (name c, b) \<in> set (loadedFonts fm) \<and>
                readFileSync fs (path_join (fontsDir fs) (file c)) = Inr b))"
proof -
  have a: "set (getAvailableFonts fm) \<subseteq> name ` set FONT_CONFIG"
    by (auto simp: assms getAvailableFonts_def loaded_new)
  have b: "set (fontPriority fm) = set (getAvailableFonts fm)"
    by (simp add: assms getAvailableFonts_def loaded_new priority_new comp_def)
  have c: "\<forall>n b. (n, b) \<in> set (loadedFonts fm) \<longrightarrow>
             (\<exists>c \<in> set FONT_CONFIG. name c = n \<and>
                existsSync fs (path_join (fontsDir fs) (file c)) \<and>
                readFileSync fs (path_join (fontsDir fs) (file c)) = Inr b)"
    by (simp add: assms loaded_entries readFont_Some)
  have d: "\<forall>c \<in> set FONT_CONFIG. readFont fs c = None \<longrightarrow> name c \<notin> set (getAvailableFonts fm)"
    by (auto simp: assms getAvailableFonts_def loaded_new FONT_CONFIG_def name_Noto name_DejaVu)
  have e: "getBestFontForText fm s = None \<or>
             (\<exists>c \<in> set FONT_CONFIG. \<exists>b. getBestFontForText fm s = Some b \<and>
                (name c, b) \<in> set (loadedFonts fm) \<and>
                readFileSync fs (path_join (fontsDir fs) (file c)) = Inr b)" for s
    using getBest_result [of fs s]
    by (auto simp: assms loaded_entries readFont_Some)
  from a b c d e show ?thesis by blast
qed

lemma only_latin_read:
  "readFont only_latin_fs NotoSansSC = None" "readFont only_latin_fs DejaVuSans = Some [7, 7]"
  by (simp_all add: readFont_def only_latin_fs_def path_join_def NotoSansSC_def DejaVuSans_def)

theorem loaded_fonts_invariant_witness:
  "getAvailableFonts (new_FontManager only_latin_fs) = [''DejaVuSans''] \<and>
   NotoSansSC \<in> set FONT_CONFIG \<and> readFont only_latin_fs NotoSansSC = None \<and>
   name NotoSansSC \<notin> set (getAvailableFonts (new_FontManager only_latin_fs)) \<and>
   getBestFontForText (new_FontManager only_latin_fs) mostly_cjk = Some [7, 7]"
proof -
  have fm: "new_FontManager only_latin_fs =
              \<lparr> loadedFonts = [(''DejaVuSans'', [7, 7])], fontPriority = [''DejaVuSans''] \<rparr>"
    by (simp add: new_FontManager_cases only_latin_read)
  have h: "NotoSansSC \<in> set FONT_CONFIG" by (simp add: FONT_CONFIG_def)
  note inv = loaded_fonts_invariant [OF refl, of only_latin_fs]
  from inv h only_latin_read(1)
  have absent: "name NotoSansSC \<notin> set (getAvailableFonts (new_FontManager only_latin_fs))"
    by blast
  from inv
  have "getBestFontForText (new_FontManager only_latin_fs) mostly_cjk = None \<or>
        (\<exists>c \<in> set FONT_CONFIG. \<exists>b.
           getBestFontForText (new_FontManager only_latin_fs) mostly_cjk = Some b \<and>
           (name c, b) \<in> set (loadedFonts (new_FontManager only_latin_fs)) \<and>
           readFileSync only_latin_fs (path_join (fontsDir only_latin_fs) (file c)) = Inr b)"
    by blast
  then have "getBestFontForText (new_FontManager only_latin_fs) mostly_cjk = None \<or>
             getBestFontForText (new_FontManager only_latin_fs) mostly_cjk = Some [7, 7]"
    by (auto simp: fm)
  moreover have "getBestFontForText (new_FontManager only_latin_fs) mostly_cjk \<noteq> None"
    by (simp add: getBestFontForText_new only_latin_read)
  ultimately have sel: "getBestFontForText (new_FontManager only_latin_fs) mostly_cjk = Some [7, 7]"
    by blast
  have "getAvailableFonts (new_FontManager only_latin_fs) = [''DejaVuSans'']"
    by (simp add: fm getAvailableFonts_def)
  with h only_latin_read(1) absent sel show ?thesis by blast
qed

lemma call_sequence_length: "length (call_sequence fm texts) = length texts"
  by (induction texts) (simp_all add: call_getBestFontForText_def)





text \<open>
  Claim C10. \<^verbatim>\<open>getBestFontForText\<close> returns on the empty string as on every other:
  the quotient \<^verbatim>\<open>0 / 0\<close> is NaN, the comparison of NaN with 0.8 is false for every
  font, so the priority loop selects nothing and the fallback returns the first loaded
  font (null when no font is loaded).
\<close>

theorem getBestFontForText_empty_text:
  "js_div 0 0 = NaN \<and> \<not> js_gt NaN (8 / 10)
   \<and> (\<forall>c. \<not> exceeds_threshold c (codePoints []))
   \<and> priority_loop (new_FontManager fs) (codePoints []) (fontPriority (new_FontManager fs)) = None
   \<and> getBestFontForText (new_FontManager fs) [] =
        (case fontPriority (new_FontManager fs) of
           [] \<Rightarrow> None
         | firstFont # rest \<Rightarrow> map_get firstFont (loadedFonts (new_FontManager fs)))
   \<and> (loadedFonts (new_FontManager fs) \<noteq> [] \<longrightarrow>
        (\<exists>firstFont rest b. fontPriority (new_FontManager fs) = firstFont # rest \<and>
           hd (loadedFonts (new_FontManager fs)) = (firstFont, b) \<and>
           getBestFontForText (new_FontManager fs) [] = Some b))"
proof -
  have a: "\<not> exceeds_threshold c []" for c
    by (simp add: exceeds_threshold_def js_div_def supportedChars_def)
  have b: "priority_loop fm [] ns = None" for fm ns
    using a by (induction ns) (simp_all split: option.splits)
  have c: "getBestFontForText (new_FontManager fs) [] =
        (case fontPriority (new_FontManager fs) of
           [] \<Rightarrow> None
         | firstFont # rest \<Rightarrow> map_get firstFont (loadedFonts (new_FontManager fs)))"
    unfolding getBestFontForText_new
    by (auto simp: a new_FontManager_cases map_get_def split: option.splits)
  have d: "loadedFonts (new_FontManager fs) \<noteq> [] \<longrightarrow>
        (\<exists>firstFont rest b. fontPriority (new_FontManager fs) = firstFont # rest \<and>
           hd (loadedFonts (new_FontManager fs)) = (firstFont, b) \<and>
           getBestFontForText (new_FontManager fs) [] = Some b)"
    unfolding c
    by (auto simp: new_FontManager_cases map_get_def split: option.splits)
  from a b c d show ?thesis by (simp add: js_div_def)
qed

theorem getBestFontForText_empty_text_witness:
  "loadedFonts (new_FontManager example_fs) \<noteq> [] \<and>
   getBestFontForText (new_FontManager example_fs) [] = Some [1]"
proof -
  have h: "loadedFonts (new_FontManager example_fs) \<noteq> []" by (simp add: example_fm)
  from getBestFontForText_empty_text [of example_fs] h
  have "\<exists>firstFont rest b. fontPriority (new_FontManager example_fs) = firstFont # rest \<and>
           hd (loadedFonts (new_FontManager example_fs)) = (firstFont, b) \<and>
           getBestFontForText (new_FontManager example_fs) [] = Some b"
    by blast
  then have "getBestFontForText (new_FontManager example_fs) [] = Some [1]"
    by (auto simp: example_fm)
  with h show ?thesis by simp
qed

section \<open>Properties of the conversion\<close>

text \<open>
  Claim C6. When the document payload is empty, that is when the base64 string is empty
  or decodes to a buffer of length zero, \<^verbatim>\<open>convertWordToPdfAction\<close> fulfils with one of
  its two empty-input errors and no PDF.
\<close>

theorem convert_empty_payload:
  assumes "docxFileBase64 input = [] \<or> base64_decode env (docxFileBase64 input) = []"
  shows "convertWordToPdfAction env this input =
           Resolved \<lparr> pdfDataUri = None,
                      error = Some (if docxFileBase64 input = []
                                    then str ''No DOCX file data provided for conversion.''
                                    else str ''Empty DOCX file data received after base64 decoding.'') \<rparr>"
  using assms
  by (auto simp: convertWordToPdfAction_def try_block_def error_result_def)

theorem convert_empty_payload_witness:
  "docxFileBase64 \<lparr> docxFileBase64 = str ''===='', originalFileName = str ''empty.docx'' \<rparr> \<noteq> [] \<and>
   base64_decode empty_payload_env (str ''===='') = [] \<and>
   convertWordToPdfAction empty_payload_env Null
       \<lparr> docxFileBase64 = str ''===='', originalFileName = str ''empty.docx'' \<rparr> =
     Resolved \<lparr> pdfDataUri = None,
                error = Some (str ''Empty DOCX file data received after base64 decoding.'') \<rparr>"
proof -
  have d: "base64_decode empty_payload_env (str ''===='') = []"
    by (simp add: empty_payload_env_def)
  from convert_empty_payload [of "\<lparr> docxFileBase64 = str ''===='', originalFileName = str ''empty.docx'' \<rparr>"
      empty_payload_env Null] d
  show ?thesis by (simp add: str_def)
qed

text \<open>
  Claim C7. When the payload is not empty and the extractor returns a text that is empty
  or white space only, \<^verbatim>\<open>convertWordToPdfAction\<close> fulfils with the no-text error and no
  PDF, whatever images the document holds: the images are not extracted before the text
  has been checked.
\<close>

theorem convert_no_text_content:
  assumes "docxFileBase64 input \<noteq> []"
    and "base64_decode env (docxFileBase64 input) \<noteq> []"
    and "extractRawText env (base64_decode env (docxFileBase64 input)) = Inr textContent"
    and "trim textContent = []"
  shows "convertWordToPdfAction env this input =
           Resolved \<lparr> pdfDataUri = None,
                      error = Some (str ''No text content found in the document.'') \<rparr>"
  using assms
  by (simp add: convertWordToPdfAction_def try_block_def error_result_def)

theorem convert_no_text_content_witness:
  "docxFileBase64 hello_input \<noteq> [] \<and>
   base64_decode image_only_env (docxFileBase64 hello_input) \<noteq> [] \<and>
   extractRawText image_only_env (base64_decode image_only_env (docxFileBase64 hello_input)) = Inr [10, 10] \<and>
   convertToHtml image_only_env (base64_decode image_only_env (docxFileBase64 hello_input)) =
     Inr [\<lparr> buffer = [137, 80, 78, 71], contentType = str ''image/png'' \<rparr>] \<and>
   trim [10, 10] = [] \<and>
   convertWordToPdfAction image_only_env Null hello_input =
     Resolved \<lparr> pdfDataUri = None,
                error = Some (str ''No text content found in the document.'') \<rparr>"
proof -
  have h1: "docxFileBase64 hello_input \<noteq> []" by (simp add: hello_input_def str_def)
  have h2: "base64_decode image_only_env (docxFileBase64 hello_input) \<noteq> []"
    by (simp add: image_only_env_def)
  have h3: "extractRawText image_only_env (base64_decode image_only_env (docxFileBase64 hello_input))
              = Inr [10, 10]"
    by (simp add: image_only_env_def)
  have h4: "trim [10, 10] = []" by (simp add: trim_def is_whitespace_def)
  have h5: "convertToHtml image_only_env (base64_decode image_only_env (docxFileBase64 hello_input)) =
     Inr [\<lparr> buffer = [137, 80, 78, 71], contentType = str ''image/png'' \<rparr>]"
    by (simp add: image_only_env_def)
  from convert_no_text_content [OF h1 h2 h3 h4, of Null] h1 h2 h3 h4 h5
  show ?thesis by simp
qed

lemma trim_hello: "trim (str ''Hello'') = str ''Hello''"
  by (simp add: trim_def str_def is_whitespace_def)

lemma hello_nonempty: "str ''Hello'' \<noteq> []" "str ''UEsDBA=='' \<noteq> []"
  by (simp_all add: str_def)

lemma try_block_null:
  "try_block hello_env Null hello_input =
     Inl (Error (str ''Cannot read properties of null (reading 'processTextWithFonts')''))"
  by (simp add: try_block_def hello_env_def hello_input_def working_renderer_def trim_hello
        hello_nonempty quoted_def)

lemma catch_null:
  "catch_block (Error (str ''Cannot read properties of null (reading 'processTextWithFonts')'')) =
     error_result (str ''Failed to convert Word document. Cannot read properties of null (reading 'processTextWithFonts')'')"
  by (simp add: catch_block_def to_text_def str_def)

lemma hello_input_b64: "docxFileBase64 hello_input \<noteq> []"
  by (simp add: hello_input_def hello_nonempty)

lemma catch_undefined:
  "catch_block (Error (str ''Cannot read properties of undefined (reading 'processTextWithFonts')'')) =
     error_result (str ''Failed to convert Word document. Cannot read properties of undefined (reading 'processTextWithFonts')'')"
  by (simp add: catch_block_def to_text_def str_def)

lemma try_block_undefined:
  "try_block hello_env Undefined hello_input =
     Inl (Error (str ''Cannot read properties of undefined (reading 'processTextWithFonts')''))"
  by (simp add: try_block_def hello_env_def hello_input_def working_renderer_def trim_hello
        hello_nonempty quoted_def)

text \<open>
  Claim C1 says that a document whose text is ASCII and not blank, and which holds no
  image, converts to a non-empty PDF without an error. The code does not do so when it
  is called as a server action or by a plain call: the receiver is then null or
  undefined, \<^verbatim>\<open>this.processTextWithFonts\<close> throws a TypeError, and the
  \<^verbatim>\<open>catch\<close> block returns it as an error with no PDF. The theorem evaluates the
  call on a document with the text \<^verbatim>\<open>Hello\<close> and no image, with collaborators that
  never fail.
\<close>

theorem convert_ascii_text_fails:
  "convertWordToPdfAction hello_env Null hello_input =
     Resolved \<lparr> pdfDataUri = None,
                error = Some (str ''Failed to convert Word document. Cannot read properties of null (reading 'processTextWithFonts')'') \<rparr>
   \<and> convertWordToPdfAction hello_env Undefined hello_input =
     Resolved \<lparr> pdfDataUri = None,
                error = Some (str ''Failed to convert Word document. Cannot read properties of undefined (reading 'processTextWithFonts')'') \<rparr>"
  by (simp add: convertWordToPdfAction_def try_block_null try_block_undefined catch_null
        catch_undefined error_result_def hello_input_b64)

lemma catch_block_is_error: "\<exists>msg. catch_block e = error_result msg"
  by (auto simp: catch_block_def Let_def split: option.splits)



lemma split_hello: "split_paragraphs (str ''Hello'') = [str ''Hello'']"
  by (simp add: split_paragraphs_def str_def match_blank_line_def)

lemma hello_coverage:
  "\<not> exceeds_threshold NotoSansSC (codePoints (str ''Hello''))"
  "exceeds_threshold DejaVuSans (codePoints (str ''Hello''))"
  by (simp_all add: exceeds_threshold_iff str_def supportedChars_def isCodePointSupported_def
        NotoSansSC_def DejaVuSans_def is_high_surrogate_def is_low_surrogate_def)

lemma font_hello: "font_for (new_FontManager example_fs) (str ''Hello'') = Custom [2]"
  by (simp add: font_for_def getBestFontForText_new example_fs_read hello_coverage)

lemma text_hello:
  "processTextWithFonts \<lparr> throws = (\<lambda>doc c. None), finish = f \<rparr> [NewDocument, AddPage]
      (str ''Hello'') (new_FontManager example_fs) =
     (None, [NewDocument, AddPage, SetFont (Custom [2]), FontSize 12, TextLeft (str ''Hello''),
             MoveDown])"
  by (simp add: processTextWithFonts_def split_hello trim_hello hello_nonempty
        render_paragraph_def font_hello)

lemma try_block_hello:
  "try_block hello_env module_object hello_input = Inr (finalize hello_env hello_doc)"
  by (simp add: try_block_def hello_env_def hello_input_def working_renderer_def trim_hello
        hello_nonempty module_object_def text_hello hello_doc_def)

lemma try_block_broken_stream:
  "try_block broken_stream_env module_object hello_input =
     Inr (finalize broken_stream_env hello_doc)"
  by (simp add: try_block_def broken_stream_env_def hello_env_def hello_input_def trim_hello
        hello_nonempty module_object_def text_hello hello_doc_def)

text \<open>
  The environment of the evaluation above is not at fault: on a receiver that has the
  two functions of the module as methods, the same input converts.
\<close>

lemma hello_env_is_sound:
  "convertWordToPdfAction hello_env module_object hello_input =
     Resolved \<lparr> pdfDataUri = Some (str ''data:application/pdf;base64,JVBERg==''), error = None \<rparr>"
proof -
  have "convertWordToPdfAction hello_env module_object hello_input = finalize hello_env hello_doc"
    by (simp add: convertWordToPdfAction_def hello_input_b64 try_block_hello)
  also have "\<dots> = Resolved \<lparr> pdfDataUri = Some (str ''data:application/pdf;base64,JVBERg==''),
                                error = None \<rparr>"
    by (simp add: finalize_def hello_env_def working_renderer_def str_def)
  finally show ?thesis .
qed

text \<open>
  Whatever the receiver and the environment, a call either fulfils with an error result
  or settles as the promise of the finalization does: an exception thrown before the
  finalization never leaves the function.
\<close>

lemma try_block_outcomes:
  "(\<exists>e. try_block env this input = Inl e) \<or>
   (\<exists>msg. try_block env this input = Inr (Resolved (error_result msg))) \<or>
   (\<exists>pdfDoc. try_block env this input = Inr (finalize env pdfDoc))"
  by (auto simp: try_block_def Let_def split: sum.splits prod.splits option.splits)

lemma convert_outcomes:
  "(\<exists>msg. convertWordToPdfAction env this input = Resolved (error_result msg)) \<or>
   (\<exists>pdfDoc. convertWordToPdfAction env this input = finalize env pdfDoc)"
proof (cases "docxFileBase64 input = []")
  case True
  then show ?thesis by (auto simp: convertWordToPdfAction_def)
next
  case False
  from try_block_outcomes [of env this input] consider
      e where "try_block env this input = Inl e"
    | msg where "try_block env this input = Inr (Resolved (error_result msg))"
    | pdfDoc where "try_block env this input = Inr (finalize env pdfDoc)"
    by blast
  then show ?thesis
  proof cases
    case 1
    with False catch_block_is_error [of e] show ?thesis
      by (auto simp: convertWordToPdfAction_def)
  next
    case 2
    with False show ?thesis by (auto simp: convertWordToPdfAction_def)
  next
    case 3
    with False show ?thesis by (auto simp: convertWordToPdfAction_def)
  qed
qed

text \<open>
  When the promise of the function is fulfilled, exactly one of the two fields of the
  result is populated.
\<close>

lemma convert_fulfilled_exactly_one:
  assumes "convertWordToPdfAction env this input = Resolved out"
  shows "(pdfDataUri out = None) \<noteq> (error out = None)"
proof -
  from convert_outcomes [of env this input] show ?thesis
  proof
    assume "\<exists>msg. convertWordToPdfAction env this input = Resolved (error_result msg)"
    with assms show ?thesis by (auto simp: error_result_def)
  next
    assume "\<exists>pdfDoc. convertWordToPdfAction env this input = finalize env pdfDoc"
    then obtain pdfDoc where "finalize env pdfDoc = Resolved out"
      using assms by auto
    then show ?thesis
      by (cases "finish (pdfkit env) pdfDoc") (auto simp: finalize_def)
  qed
qed



text \<open>
  What the finalization would do on a receiver that has the functions of the module as
  methods, which no caller of the module can pass: when the stream emits
  \<^verbatim>\<open>error\<close> the promise is rejected with the error object as its reason.
\<close>

lemma finalization_error_rejects:
  "convertWordToPdfAction broken_stream_env module_object hello_input =
     Rejected (Reason \<lparr> pdfDataUri = None,
                        error = Some (str ''Failed to finalize PDF document. write EPIPE'') \<rparr>)"
proof -
  have "convertWordToPdfAction broken_stream_env module_object hello_input =
          finalize broken_stream_env hello_doc"
    by (simp add: convertWordToPdfAction_def hello_input_b64 try_block_broken_stream)
  also have "\<dots> = Rejected (Reason \<lparr> pdfDataUri = None,
                        error = Some (str ''Failed to finalize PDF document. write EPIPE'') \<rparr>)"
    by (simp add: finalize_def broken_stream_env_def error_result_def to_text_def str_def)
  finally show ?thesis .
qed

section \<open>Properties of the image pages\<close>

lemma calls_complete:
  assumes "\<forall>doc c. (\<forall>b. c \<noteq> Image b) \<longrightarrow> throws r doc c = None"
    and "\<forall>c \<in> set cs. \<forall>b. c \<noteq> Image b"
  shows "calls r cs doc = (None, doc @ cs)"
  using assms(2)
proof (induction cs arbitrary: doc)
  case Nil
  then show ?case by simp
next
  case (Cons c cs)
  then have "throws r doc c = None" using assms(1) by simp
  with Cons show ?case by simp
qed

lemma calls_page:
  assumes "\<forall>doc c. (\<forall>b. c \<noteq> Image b) \<longrightarrow> throws r doc c = None"
  shows "calls r [AddPage] doc = (None, doc @ [AddPage])"
  by (rule calls_complete [OF assms]) simp

lemma calls_placeholder:
  assumes "\<forall>doc c. (\<forall>b. c \<noteq> Image b) \<longrightarrow> throws r doc c = None"
  shows "calls r [SetFont f, FontSize n, TextCenter t] doc =
           (None, doc @ [SetFont f, FontSize n, TextCenter t])"
  by (rule calls_complete [OF assms]) simp

lemma process_image_unsupported:
  assumes ok: "\<forall>doc c. (\<forall>b. c \<noteq> Image b) \<longrightarrow> throws r doc c = None"
    and un: "contentType img \<noteq> str ''image/jpeg''" "contentType img \<noteq> str ''image/png''"
  shows "process_image r fontManager img doc =
           (None, doc @ [AddPage,
              SetFont (font_for fontManager
                 (str ''[Unsupported image type: '' @ contentType img @ str '']'')),
              FontSize 10,
              TextCenter (str ''[Unsupported image type: '' @ contentType img @ str '']'')])"
  using un
  by (simp add: process_image_def calls_page [OF ok] calls_placeholder [OF ok] Let_def
        del: calls.simps)

lemma process_image_embed_fails:
  assumes ok: "\<forall>doc c. (\<forall>b. c \<noteq> Image b) \<longrightarrow> throws r doc c = None"
    and su: "contentType img = str ''image/jpeg'' \<or> contentType img = str ''image/png''"
    and th: "throws r (doc @ [AddPage]) (Image (buffer img)) = Some e"
  shows "process_image r fontManager img doc =
           (None, doc @ [AddPage,
              SetFont (font_for fontManager
                 (str ''[Error embedding image: '' @ to_text (message e) @ str '']'')),
              FontSize 10,
              TextCenter (str ''[Error embedding image: '' @ to_text (message e) @ str '']'')])"
proof -
  have "calls r [Image (buffer img)] (doc @ [AddPage]) = (Some e, doc @ [AddPage])"
    using th by simp
  then show ?thesis
    using su
    by (auto simp: process_image_def calls_page [OF ok] calls_placeholder [OF ok] Let_def
          simp del: calls.simps)
qed

lemma process_image_embed_ok:
  assumes ok: "\<forall>doc c. (\<forall>b. c \<noteq> Image b) \<longrightarrow> throws r doc c = None"
    and su: "contentType img = str ''image/jpeg'' \<or> contentType img = str ''image/png''"
    and th: "throws r (doc @ [AddPage]) (Image (buffer img)) = None"
  shows "process_image r fontManager img doc = (None, doc @ [AddPage, Image (buffer img)])"
proof -
  have "calls r [Image (buffer img)] (doc @ [AddPage]) =
          (None, doc @ [AddPage, Image (buffer img)])"
    using th by simp
  then show ?thesis
    using su by (auto simp: process_image_def calls_page [OF ok] simp del: calls.simps)
qed

lemma process_image_extends:
  assumes ok: "\<forall>doc c. (\<forall>b. c \<noteq> Image b) \<longrightarrow> throws r doc c = None"
  shows "\<exists>ext. process_image r fontManager img doc = (None, doc @ ext) \<and>
           (contentType img \<noteq> str ''image/jpeg'' \<and> contentType img \<noteq> str ''image/png'' \<longrightarrow>
              TextCenter (str ''[Unsupported image type: '' @ contentType img @ str '']'') \<in> set ext)"
proof (cases "contentType img = str ''image/jpeg'' \<or> contentType img = str ''image/png''")
  case True
  show ?thesis
  proof (cases "throws r (doc @ [AddPage]) (Image (buffer img))")
    case None
    from process_image_embed_ok [OF ok True None] True show ?thesis by auto
  next
    case (Some e)
    from process_image_embed_fails [OF ok True Some] True show ?thesis by auto
  qed
next
  case False
  then have "contentType img \<noteq> str ''image/jpeg''" "contentType img \<noteq> str ''image/png''"
    by simp_all
  from process_image_unsupported [OF ok this] show ?thesis by auto
qed

lemma processImages_extends:
  assumes ok: "\<forall>doc c. (\<forall>b. c \<noteq> Image b) \<longrightarrow> throws r doc c = None"
  shows "\<exists>ext. processImages r doc images fontManager = (None, doc @ ext) \<and>
           (\<forall>img \<in> set images.
              contentType img \<noteq> str ''image/jpeg'' \<and> contentType img \<noteq> str ''image/png'' \<longrightarrow>
              TextCenter (str ''[Unsupported image type: '' @ contentType img @ str '']'') \<in> set ext)"
proof (induction images arbitrary: doc)
  case Nil
  then show ?case by simp
next
  case (Cons img images)
  from process_image_extends [OF ok, of fontManager img doc]
  obtain e1 where s1: "process_image r fontManager img doc = (None, doc @ e1)"
    and m1: "contentType img \<noteq> str ''image/jpeg'' \<and> contentType img \<noteq> str ''image/png'' \<longrightarrow>
              TextCenter (str ''[Unsupported image type: '' @ contentType img @ str '']'') \<in> set e1"
    by blast
  from Cons.IH [of "doc @ e1"]
  obtain e2 where s2: "processImages r (doc @ e1) images fontManager = (None, (doc @ e1) @ e2)"
    and m2: "\<forall>img \<in> set images.
              contentType img \<noteq> str ''image/jpeg'' \<and> contentType img \<noteq> str ''image/png'' \<longrightarrow>
              TextCenter (str ''[Unsupported image type: '' @ contentType img @ str '']'') \<in> set e2"
    by blast
  have "processImages r doc (img # images) fontManager = (None, doc @ (e1 @ e2))"
    using s1 s2 by simp
  moreover have "\<forall>i \<in> set (img # images).
              contentType i \<noteq> str ''image/jpeg'' \<and> contentType i \<noteq> str ''image/png'' \<longrightarrow>
              TextCenter (str ''[Unsupported image type: '' @ contentType i @ str '']'') \<in> set (e1 @ e2)"
    using m1 m2 by auto
  ultimately show ?case by blast
qed

text \<open>
  What \<^verbatim>\<open>processImages\<close> does once it is reached, on a renderer whose page, font and
  text calls complete (embedding an image may throw): it never throws; an image whose
  content type is neither JPEG nor PNG gets a new page with the text
  \<^verbatim>\<open>[Unsupported image type: T]\<close>, \<open>T\<close> its content type; an image whose embedding
  throws gets a new page with the text \<^verbatim>\<open>[Error embedding image: M]\<close>, \<open>M\<close> the
  message of the exception, or the text \<^verbatim>\<open>undefined\<close> when a bare string was thrown.
\<close>

lemma processImages_placeholders:
  assumes "\<forall>doc c. (\<forall>b. c \<noteq> Image b) \<longrightarrow> throws r doc c = None"
  shows "fst (processImages r pdfDoc images fontManager) = None
     \<and> (\<forall>img \<in> set images.
          contentType img \<noteq> str ''image/jpeg'' \<and> contentType img \<noteq> str ''image/png'' \<longrightarrow>
          TextCenter (str ''[Unsupported image type: '' @ contentType img @ str '']'')
            \<in> set (snd (processImages r pdfDoc images fontManager)))
     \<and> (\<forall>img doc.
          contentType img \<noteq> str ''image/jpeg'' \<and> contentType img \<noteq> str ''image/png'' \<longrightarrow>
          process_image r fontManager img doc =
            (None, doc @ [AddPage,
               SetFont (font_for fontManager
                  (str ''[Unsupported image type: '' @ contentType img @ str '']'')),
               FontSize 10,
               TextCenter (str ''[Unsupported image type: '' @ contentType img @ str '']'')]))
     \<and> (\<forall>img doc e.
          (contentType img = str ''image/jpeg'' \<or> contentType img = str ''image/png'') \<and>
          throws r (doc @ [AddPage]) (Image (buffer img)) = Some e \<longrightarrow>
          process_image r fontManager img doc =
            (None, doc @ [AddPage,
               SetFont (font_for fontManager
                  (str ''[Error embedding image: '' @ to_text (message e) @ str '']'')),
               FontSize 10,
               TextCenter (str ''[Error embedding image: '' @ to_text (message e) @ str '']'')]))
     \<and> str ''[Unsupported image type: '' @ str ''image/bmp'' @ str '']'' =
         str ''[Unsupported image type: image/bmp]''"
proof -
  from processImages_extends [OF assms, of pdfDoc images fontManager]
  obtain ext where "processImages r pdfDoc images fontManager = (None, pdfDoc @ ext)"
    and "\<forall>img \<in> set images.
           contentType img \<noteq> str ''image/jpeg'' \<and> contentType img \<noteq> str ''image/png'' \<longrightarrow>
           TextCenter (str ''[Unsupported image type: '' @ contentType img @ str '']'') \<in> set ext"
    by blast
  then have a: "fst (processImages r pdfDoc images fontManager) = None"
    and b: "\<forall>img \<in> set images.
          contentType img \<noteq> str ''image/jpeg'' \<and> contentType img \<noteq> str ''image/png'' \<longrightarrow>
          TextCenter (str ''[Unsupported image type: '' @ contentType img @ str '']'')
            \<in> set (snd (processImages r pdfDoc images fontManager))"
    by simp_all
  have c: "str ''[Unsupported image type: '' @ str ''image/bmp'' @ str '']'' =
           str ''[Unsupported image type: image/bmp]''"
    by (simp add: str_def)
  from a b c process_image_unsupported [OF assms] process_image_embed_fails [OF assms]
  show ?thesis by blast
qed

lemma image_failing_renderer_throws:
  "\<forall>doc c. (\<forall>b. c \<noteq> Image b) \<longrightarrow> throws image_failing_renderer doc c = None"
  by (auto simp: image_failing_renderer_def split: pdf_call.splits)

lemma placeholder_coverage:
  "\<not> exceeds_threshold NotoSansSC (codePoints (str ''[Unsupported image type: image/bmp]''))"
  "exceeds_threshold DejaVuSans (codePoints (str ''[Unsupported image type: image/bmp]''))"
  "\<not> exceeds_threshold NotoSansSC
       (codePoints (str ''[Error embedding image: Unknown image format.]''))"
  "exceeds_threshold DejaVuSans
     (codePoints (str ''[Error embedding image: Unknown image format.]''))"
  by (simp_all add: exceeds_threshold_iff str_def supportedChars_def isCodePointSupported_def
        NotoSansSC_def DejaVuSans_def is_high_surrogate_def is_low_surrogate_def)

lemma placeholder_fonts:
  "font_for (new_FontManager example_fs) (str ''[Unsupported image type: image/bmp]'') = Custom [2]"
  "font_for (new_FontManager example_fs) (str ''[Error embedding image: Unknown image format.]'')
     = Custom [2]"
  by (simp_all add: font_for_def getBestFontForText_new example_fs_read placeholder_coverage)

lemma processImages_placeholders_example:
  "processImages image_failing_renderer [NewDocument] [bmp_image, png_image]
      (new_FontManager example_fs) =
     (None, [NewDocument,
             AddPage, SetFont (Custom [2]), FontSize 10,
             TextCenter (str ''[Unsupported image type: image/bmp]''),
             AddPage, SetFont (Custom [2]), FontSize 10,
             TextCenter (str ''[Error embedding image: Unknown image format.]'')])"
proof -
  note inst = processImages_placeholders [OF image_failing_renderer_throws,
      of "[NewDocument]" "[bmp_image, png_image]" "new_FontManager example_fs"]
  have bmp: "contentType bmp_image \<noteq> str ''image/jpeg'' \<and> contentType bmp_image \<noteq> str ''image/png''"
    by (simp add: bmp_image_def str_def)
  have s1: "process_image image_failing_renderer (new_FontManager example_fs) bmp_image [NewDocument] =
          (None, [NewDocument, AddPage, SetFont (Custom [2]), FontSize 10,
                  TextCenter (str ''[Unsupported image type: image/bmp]'')])"
  proof -
    from inst bmp
    have "process_image image_failing_renderer (new_FontManager example_fs) bmp_image [NewDocument] =
            (None, [NewDocument] @ [AddPage,
               SetFont (font_for (new_FontManager example_fs)
                  (str ''[Unsupported image type: '' @ contentType bmp_image @ str '']'')),
               FontSize 10,
               TextCenter (str ''[Unsupported image type: '' @ contentType bmp_image @ str '']'')])"
      by blast
    moreover from inst
    have "str ''[Unsupported image type: '' @ contentType bmp_image @ str '']'' =
          str ''[Unsupported image type: image/bmp]''"
      by (simp add: bmp_image_def)
    ultimately show ?thesis by (simp add: placeholder_fonts)
  qed
  have png: "contentType png_image = str ''image/jpeg'' \<or> contentType png_image = str ''image/png''"
    by (simp add: png_image_def)
  have th: "throws image_failing_renderer (d @ [AddPage]) (Image (buffer png_image)) =
              Some (Error (str ''Unknown image format.''))" for d
    by (simp add: image_failing_renderer_def)
  have e: "str ''[Error embedding image: '' @ to_text (message (Error (str ''Unknown image format.''))) @ str '']''
           = str ''[Error embedding image: Unknown image format.]''"
    by (simp add: to_text_def str_def)
  have s2: "process_image image_failing_renderer (new_FontManager example_fs) png_image d =
          (None, d @ [AddPage, SetFont (Custom [2]), FontSize 10,
                  TextCenter (str ''[Error embedding image: Unknown image format.]'')])" for d
  proof -
    from inst png th [of d]
    have "process_image image_failing_renderer (new_FontManager example_fs) png_image d =
            (None, d @ [AddPage,
               SetFont (font_for (new_FontManager example_fs)
                  (str ''[Error embedding image: '' @ to_text (message (Error (str ''Unknown image format.''))) @ str '']'')),
               FontSize 10,
               TextCenter (str ''[Error embedding image: '' @ to_text (message (Error (str ''Unknown image format.''))) @ str '']'')])"
      by blast
    then show ?thesis unfolding e by (simp add: placeholder_fonts)
  qed
  show ?thesis by (simp add: s1 s2)
qed

text \<open>
  A bare string thrown by the embedding has no message, and the page reads
  \<^verbatim>\<open>[Error embedding image: undefined]\<close>.
\<close>

lemma process_image_bare_string:
  "process_image string_throwing_renderer (new_FontManager example_fs) png_image [NewDocument] =
     (None, [NewDocument, AddPage, SetFont (Custom [2]), FontSize 10,
             TextCenter (str ''[Error embedding image: undefined]'')])"
proof -
  have ok: "\<forall>doc c. (\<forall>b. c \<noteq> Image b) \<longrightarrow> throws string_throwing_renderer doc c = None"
    by (auto simp: string_throwing_renderer_def split: pdf_call.splits)
  have su: "contentType png_image = str ''image/jpeg'' \<or> contentType png_image = str ''image/png''"
    by (simp add: png_image_def)
  have th: "throws string_throwing_renderer ([NewDocument] @ [AddPage]) (Image (buffer png_image)) =
              Some (Thrown_string (str ''SOI not found in JPEG''))"
    by (simp add: string_throwing_renderer_def)
  have e: "str ''[Error embedding image: '' @
             to_text (message (Thrown_string (str ''SOI not found in JPEG''))) @ str '']''
           = str ''[Error embedding image: undefined]''"
    by (simp add: to_text_def str_def)
  have c: "\<not> exceeds_threshold NotoSansSC (codePoints (str ''[Error embedding image: undefined]''))"
    "exceeds_threshold DejaVuSans (codePoints (str ''[Error embedding image: undefined]''))"
    by (simp_all add: exceeds_threshold_iff str_def supportedChars_def isCodePointSupported_def
          NotoSansSC_def DejaVuSans_def is_high_surrogate_def is_low_surrogate_def)
  have f: "font_for (new_FontManager example_fs) (str ''[Error embedding image: undefined]'')
             = Custom [2]"
    by (simp add: font_for_def getBestFontForText_new example_fs_read c)
  from process_image_embed_fails [OF ok su th, of "new_FontManager example_fs"]
  show ?thesis unfolding e by (simp add: f)
qed

text \<open>
  When the font call of the placeholder throws, the \<^verbatim>\<open>catch\<close> block makes the same
  call for its own text, nothing catches the second exception, and
  \<^verbatim>\<open>processImages\<close> throws on an image of an unsupported type.
\<close>

lemma processImages_placeholder_throws:
  "processImages bad_font_renderer [NewDocument] [bmp_image] (new_FontManager example_fs) =
     (Some (Error (str ''Unknown font format'')), [NewDocument, AddPage])"
proof -
  have f1: "font_for (new_FontManager example_fs)
              (str ''[Unsupported image type: '' @ contentType bmp_image @ str '']'') = Custom [2]"
    using placeholder_fonts(1) by (simp add: bmp_image_def str_def)
  have t2: "str ''[Error embedding image: '' @ to_text (Some (str ''Unknown font format''))
              @ str '']'' = str ''[Error embedding image: Unknown font format]''"
    by (simp add: to_text_def str_def)
  have c2: "\<not> exceeds_threshold NotoSansSC
               (codePoints (str ''[Error embedding image: Unknown font format]''))"
    "exceeds_threshold DejaVuSans
       (codePoints (str ''[Error embedding image: Unknown font format]''))"
    by (simp_all add: exceeds_threshold_iff str_def supportedChars_def isCodePointSupported_def
          NotoSansSC_def DejaVuSans_def is_high_surrogate_def is_low_surrogate_def)
  have f2: "font_for (new_FontManager example_fs)
              (str ''[Error embedding image: Unknown font format]'') = Custom [2]"
    by (simp add: font_for_def getBestFontForText_new example_fs_read c2)
  have un: "contentType bmp_image \<noteq> str ''image/jpeg''" "contentType bmp_image \<noteq> str ''image/png''"
    by (simp_all add: bmp_image_def str_def)
  have "process_image bad_font_renderer (new_FontManager example_fs) bmp_image [NewDocument] =
          (Some (Error (str ''Unknown font format'')), [NewDocument, AddPage])"
    using un
    by (simp add: process_image_def Let_def f1 t2 f2 bad_font_renderer_def)
  then show ?thesis by simp
qed

lemma try_block_bmp:
  "try_block bmp_env Null hello_input =
     Inl (Error (str ''Cannot read properties of null (reading 'processTextWithFonts')''))"
  "try_block bmp_env Undefined hello_input =
     Inl (Error (str ''Cannot read properties of undefined (reading 'processTextWithFonts')''))"
  by (simp_all add: try_block_def bmp_env_def hello_env_def hello_input_def working_renderer_def
        trim_hello hello_nonempty quoted_def)

text \<open>
  Claim C8 says that an image of an unsupported type does not abort the conversion and
  gets a page with a placeholder text. The code does not do so: a conversion that is
  called as a server action or by a plain call never reaches \<^verbatim>\<open>processImages\<close>,
  because \<^verbatim>\<open>this.processTextWithFonts\<close> throws before it (and
  \<^verbatim>\<open>this.processImages\<close> would throw after it), and the \<^verbatim>\<open>catch\<close> block returns
  an error with no PDF. The theorem evaluates the call on a document with the text
  \<^verbatim>\<open>Hello\<close> and one image of type \<^verbatim>\<open>image/bmp\<close>, with collaborators that never
  fail.
\<close>

theorem convert_unsupported_image_aborts:
  "convertToHtml bmp_env (base64_decode bmp_env (docxFileBase64 hello_input)) =
     Inr [\<lparr> buffer = [66, 77], contentType = str ''image/bmp'' \<rparr>]
   \<and> convertWordToPdfAction bmp_env Null hello_input =
     Resolved \<lparr> pdfDataUri = None,
                error = Some (str ''Failed to convert Word document. Cannot read properties of null (reading 'processTextWithFonts')'') \<rparr>
   \<and> convertWordToPdfAction bmp_env Undefined hello_input =
     Resolved \<lparr> pdfDataUri = None,
                error = Some (str ''Failed to convert Word document. Cannot read properties of undefined (reading 'processTextWithFonts')'') \<rparr>"
  by (simp add: convertWordToPdfAction_def try_block_bmp catch_null catch_undefined
        error_result_def hello_input_b64)
     (simp add: bmp_env_def bmp_image_def)

end
